theory Spec2Isabelle
  imports Complex_Main
begin

section \<open>Zero-of-functions solver: the embedding\<close>

text \<open>
  The development follows \<^verbatim>\<open>ZOF_CLI.py\<close> (the six root-finding methods and
  \<^verbatim>\<open>make_function\<close>) and \<^verbatim>\<open>app.py\<close> (the web copy of \<^verbatim>\<open>make_function\<close> and the
  Newton-Raphson branch of \<^verbatim>\<open>index\<close>).

  Numbers: a Python \<^verbatim>\<open>float\<close> is modelled as a \<^typ>\<open>real\<close>. Rounding, overflow,
  \<^verbatim>\<open>inf\<close> and \<^verbatim>\<open>nan\<close> are outside the model; the one arithmetic operation of the
  solvers that raises in Python, a division by a zero divisor, is a branch of the model.
  \<^verbatim>\<open>max_iter\<close> is a Python \<^verbatim>\<open>int\<close>, hence an \<^typ>\<open>int\<close>.

  Exceptions: every \<^verbatim>\<open>raise\<close> is a value. A solver that raises yields
  \<open>Inl (e, logs)\<close>, where \<open>logs\<close> is the content of its local list \<^verbatim>\<open>logs\<close> at the
  moment of the raise; a solver that returns yields \<open>Inr (root, err, iters, logs)\<close>.
\<close>

subsection \<open>Exceptions\<close>

text \<open>
  What a callable built by \<^verbatim>\<open>make_function\<close> raises. In \<^verbatim>\<open>ZOF_CLI.py\<close> every
  exception of \<^verbatim>\<open>eval\<close> or \<^verbatim>\<open>float\<close> is caught and replaced by
  \<^verbatim>\<open>ValueError(f"Error evaluating expression at x={x}: {e}")\<close>: \<open>ValueError x e\<close>.
  In \<^verbatim>\<open>app.py\<close> nothing is caught and the exception \<open>e\<close> leaves the callable as it
  is: \<open>Uncaught e\<close>.
\<close>

datatype call_error = ValueError real string | Uncaught string

text \<open>
  What a solver raises, named by the raise site:
  \<^item> \<open>EvaluationError e\<close>: a call of \<^verbatim>\<open>f\<close>, \<^verbatim>\<open>df\<close> or \<^verbatim>\<open>g\<close> raised \<open>e\<close>, which
    propagates;
  \<^item> \<open>InvalidBracketError\<close>: the \<^verbatim>\<open>ValueError\<close> of the sign test \<^verbatim>\<open>fa * fb > 0\<close>
    in \<^verbatim>\<open>bisection\<close> and \<^verbatim>\<open>regula_falsi\<close>;
  \<^item> \<open>ZeroDivisionError\<close>: Python's own error for the division by \<^verbatim>\<open>fb - fa\<close> in
    \<^verbatim>\<open>regula_falsi\<close>, which has no guard;
  \<^item> \<open>ZeroDenominatorError\<close>: the guarded \<^verbatim>\<open>raise ZeroDivisionError(...)\<close> of
    \<^verbatim>\<open>secant\<close> and \<^verbatim>\<open>modified_secant\<close>;
  \<^item> \<open>ZeroDerivativeError\<close>: the guarded \<^verbatim>\<open>raise ZeroDivisionError(...)\<close> of
    Newton-Raphson;
  \<^item> \<open>UnboundLocalError\<close>: a \<^verbatim>\<open>return\<close> that reads a local variable the loop never
    assigned.
\<close>

datatype error =
    EvaluationError call_error
  | InvalidBracketError
  | ZeroDivisionError
  | ZeroDenominatorError
  | ZeroDerivativeError
  | UnboundLocalError

type_synonym numfun = "real \<Rightarrow> call_error + real"

type_synonym 'row outcome = "(error \<times> 'row list) + (real \<times> real \<times> int \<times> 'row list)"

subsection \<open>The expression sandbox: \<^verbatim>\<open>make_function\<close>\<close>








subsection \<open>Iteration records\<close>

text \<open>The tuples appended to \<^verbatim>\<open>logs\<close>, one shape per method.\<close>

datatype bracket_row =
  BracketRow (br_i: int) (br_a: real) (br_b: real) (br_c: real)
    (br_fa: real) (br_fb: real) (br_fc: real) (br_err: real)

datatype secant_row =
  SecantRow (sr_i: int) (sr_x0: real) (sr_x1: real) (sr_x2: real)
    (sr_f0: real) (sr_f1: real) (sr_err: real)

datatype newton_row =
  NewtonRow (nr_i: int) (nr_x: real) (nr_x_new: real) (nr_fx: real) (nr_dfx: real) (nr_err: real)

datatype fixed_row =
  FixedRow (fr_i: int) (fr_x: real) (fr_x_new: real) (fr_err: real)

datatype modsec_row =
  ModSecRow (mr_i: int) (mr_x: real) (mr_x_new: real) (mr_fx: real) (mr_err: real)

subsection \<open>Bisection\<close>

text \<open>
  The \<^verbatim>\<open>for\<close> loop over \<^verbatim>\<open>range(1, max_iter + 1)\<close>: the first numeric argument counts
  the iterations left, \<open>i\<close> is the loop variable. With no iteration left the code
  falls out of the loop to the final \<^verbatim>\<open>return\<close>.
\<close>

fun bisection_loop ::
  "numfun \<Rightarrow> real \<Rightarrow> int \<Rightarrow> nat \<Rightarrow> int \<Rightarrow> real \<Rightarrow> real \<Rightarrow> real \<Rightarrow> real \<Rightarrow>
   bracket_row list \<Rightarrow> bracket_row outcome" where
  "bisection_loop f tol max_iter 0 i a b fa fb logs =
     Inr ((a + b) / 2, \<bar>b - a\<bar> / 2, max_iter, logs)"
| "bisection_loop f tol max_iter (Suc n) i a b fa fb logs =
     (let c = (a + b) / 2 in
      case f c of
        Inl e \<Rightarrow> Inl (EvaluationError e, logs)
      | Inr fc \<Rightarrow>
          (let err = \<bar>b - a\<bar> / 2;
               logs = logs @ [BracketRow i a b c fa fb fc err] in
           if \<bar>fc\<bar> < tol \<or> err < tol then Inr (c, err, i, logs)
           else if fa * fc < 0 then bisection_loop f tol max_iter n (i + 1) a c fa fc logs
           else bisection_loop f tol max_iter n (i + 1) c b fc fb logs))"

definition bisection :: "numfun \<Rightarrow> real \<Rightarrow> real \<Rightarrow> real \<Rightarrow> int \<Rightarrow> bracket_row outcome" where
  "bisection f a b tol max_iter =
     (case f a of
        Inl e \<Rightarrow> Inl (EvaluationError e, [])
      | Inr fa \<Rightarrow>
          (case f b of
             Inl e \<Rightarrow> Inl (EvaluationError e, [])
           | Inr fb \<Rightarrow>
               if fa * fb > 0 then Inl (InvalidBracketError, [])
               else bisection_loop f tol max_iter (nat max_iter) 1 a b fa fb []))"

subsection \<open>Regula falsi\<close>

text \<open>
  \<^verbatim>\<open>fc\<close> is assigned in the loop only: it is \<open>None\<close> until then, and the final
  \<^verbatim>\<open>return c, abs(fc), max_iter, logs\<close> raises when it is still unbound. The division
  by \<^verbatim>\<open>fb - fa\<close> raises when the divisor is zero.
\<close>

fun regula_falsi_loop ::
  "numfun \<Rightarrow> real \<Rightarrow> int \<Rightarrow> nat \<Rightarrow> int \<Rightarrow> real \<Rightarrow> real \<Rightarrow> real \<Rightarrow> real \<Rightarrow> real \<Rightarrow>
   real option \<Rightarrow> bracket_row list \<Rightarrow> bracket_row outcome" where
  "regula_falsi_loop f tol max_iter 0 i a b fa fb c fc logs =
     (case fc of
        None \<Rightarrow> Inl (UnboundLocalError, logs)
      | Some v \<Rightarrow> Inr (c, \<bar>v\<bar>, max_iter, logs))"
| "regula_falsi_loop f tol max_iter (Suc n) i a b fa fb c0 fc0 logs =
     (if fb - fa = 0 then Inl (ZeroDivisionError, logs)
      else
        (let c = (a * fb - b * fa) / (fb - fa) in
         case f c of
           Inl e \<Rightarrow> Inl (EvaluationError e, logs)
         | Inr fc \<Rightarrow>
             (let err = \<bar>fc\<bar>;
                  logs = logs @ [BracketRow i a b c fa fb fc err] in
              if \<bar>fc\<bar> < tol then Inr (c, err, i, logs)
              else if fa * fc < 0
                then regula_falsi_loop f tol max_iter n (i + 1) a c fa fc c (Some fc) logs
                else regula_falsi_loop f tol max_iter n (i + 1) c b fc fb c (Some fc) logs)))"

definition regula_falsi :: "numfun \<Rightarrow> real \<Rightarrow> real \<Rightarrow> real \<Rightarrow> int \<Rightarrow> bracket_row outcome" where
  "regula_falsi f a b tol max_iter =
     (case f a of
        Inl e \<Rightarrow> Inl (EvaluationError e, [])
      | Inr fa \<Rightarrow>
          (case f b of
             Inl e \<Rightarrow> Inl (EvaluationError e, [])
           | Inr fb \<Rightarrow>
               if fa * fb > 0 then Inl (InvalidBracketError, [])
               else regula_falsi_loop f tol max_iter (nat max_iter) 1 a b fa fb a None []))"

subsection \<open>Secant\<close>

fun secant_loop ::
  "numfun \<Rightarrow> real \<Rightarrow> int \<Rightarrow> nat \<Rightarrow> int \<Rightarrow> real \<Rightarrow> real \<Rightarrow> secant_row list \<Rightarrow>
   secant_row outcome" where
  "secant_loop f tol max_iter 0 i x0 x1 logs = Inr (x1, \<bar>x1 - x0\<bar>, max_iter, logs)"
| "secant_loop f tol max_iter (Suc n) i x0 x1 logs =
     (case f x0 of
        Inl e \<Rightarrow> Inl (EvaluationError e, logs)
      | Inr f0 \<Rightarrow>
          (case f x1 of
             Inl e \<Rightarrow> Inl (EvaluationError e, logs)
           | Inr f1 \<Rightarrow>
               if f1 - f0 = 0 then Inl (ZeroDenominatorError, logs)
               else
                 (let x2 = x1 - f1 * (x1 - x0) / (f1 - f0);
                      err = \<bar>x2 - x1\<bar>;
                      logs = logs @ [SecantRow i x0 x1 x2 f0 f1 err] in
                  if err < tol then Inr (x2, err, i, logs)
                  else secant_loop f tol max_iter n (i + 1) x1 x2 logs)))"

definition secant :: "numfun \<Rightarrow> real \<Rightarrow> real \<Rightarrow> real \<Rightarrow> int \<Rightarrow> secant_row outcome" where
  "secant f x0 x1 tol max_iter = secant_loop f tol max_iter (nat max_iter) 1 x0 x1 []"

subsection \<open>Newton-Raphson\<close>

text \<open>
  \<^verbatim>\<open>err\<close> is assigned in the loop only (\<open>None\<close> until then); the final
  \<^verbatim>\<open>return x, err, max_iter, logs\<close> reads it.
\<close>

fun newton_raphson_loop ::
  "numfun \<Rightarrow> numfun \<Rightarrow> real \<Rightarrow> int \<Rightarrow> nat \<Rightarrow> int \<Rightarrow> real \<Rightarrow> real option \<Rightarrow>
   newton_row list \<Rightarrow> newton_row outcome" where
  "newton_raphson_loop f df tol max_iter 0 i x err logs =
     (case err of
        None \<Rightarrow> Inl (UnboundLocalError, logs)
      | Some e \<Rightarrow> Inr (x, e, max_iter, logs))"
| "newton_raphson_loop f df tol max_iter (Suc n) i x err0 logs =
     (case f x of
        Inl e \<Rightarrow> Inl (EvaluationError e, logs)
      | Inr fx \<Rightarrow>
          (case df x of
             Inl e \<Rightarrow> Inl (EvaluationError e, logs)
           | Inr dfx \<Rightarrow>
               if dfx = 0 then Inl (ZeroDerivativeError, logs)
               else
                 (let x_new = x - fx / dfx;
                      err = \<bar>x_new - x\<bar>;
                      logs = logs @ [NewtonRow i x x_new fx dfx err] in
                  if err < tol then Inr (x_new, err, i, logs)
                  else newton_raphson_loop f df tol max_iter n (i + 1) x_new (Some err) logs)))"

definition newton_raphson ::
  "numfun \<Rightarrow> numfun \<Rightarrow> real \<Rightarrow> real \<Rightarrow> int \<Rightarrow> newton_row outcome" where
  "newton_raphson f df x0 tol max_iter =
     newton_raphson_loop f df tol max_iter (nat max_iter) 1 x0 None []"

subsection \<open>Fixed-point iteration\<close>

fun fixed_point_loop ::
  "numfun \<Rightarrow> real \<Rightarrow> int \<Rightarrow> nat \<Rightarrow> int \<Rightarrow> real \<Rightarrow> real option \<Rightarrow> fixed_row list \<Rightarrow>
   fixed_row outcome" where
  "fixed_point_loop g tol max_iter 0 i x err logs =
     (case err of
        None \<Rightarrow> Inl (UnboundLocalError, logs)
      | Some e \<Rightarrow> Inr (x, e, max_iter, logs))"
| "fixed_point_loop g tol max_iter (Suc n) i x err0 logs =
     (case g x of
        Inl e \<Rightarrow> Inl (EvaluationError e, logs)
      | Inr x_new \<Rightarrow>
          (let err = \<bar>x_new - x\<bar>;
               logs = logs @ [FixedRow i x x_new err] in
           if err < tol then Inr (x_new, err, i, logs)
           else fixed_point_loop g tol max_iter n (i + 1) x_new (Some err) logs))"

definition fixed_point :: "numfun \<Rightarrow> real \<Rightarrow> real \<Rightarrow> int \<Rightarrow> fixed_row outcome" where
  "fixed_point g x0 tol max_iter = fixed_point_loop g tol max_iter (nat max_iter) 1 x0 None []"

subsection \<open>Modified secant\<close>

fun modified_secant_loop ::
  "numfun \<Rightarrow> real \<Rightarrow> real \<Rightarrow> int \<Rightarrow> nat \<Rightarrow> int \<Rightarrow> real \<Rightarrow> real option \<Rightarrow>
   modsec_row list \<Rightarrow> modsec_row outcome" where
  "modified_secant_loop f delta tol max_iter 0 i x err logs =
     (case err of
        None \<Rightarrow> Inl (UnboundLocalError, logs)
      | Some e \<Rightarrow> Inr (x, e, max_iter, logs))"
| "modified_secant_loop f delta tol max_iter (Suc n) i x err0 logs =
     (case f x of
        Inl e \<Rightarrow> Inl (EvaluationError e, logs)
      | Inr fx \<Rightarrow>
          (case f (x + delta * x) of
             Inl e \<Rightarrow> Inl (EvaluationError e, logs)
           | Inr fp \<Rightarrow>
               (let denom = fp - fx in
                if denom = 0 then Inl (ZeroDenominatorError, logs)
                else
                  (let x_new = x - (delta * x * fx) / denom;
                       err = \<bar>x_new - x\<bar>;
                       logs = logs @ [ModSecRow i x x_new fx err] in
                   if err < tol then Inr (x_new, err, i, logs)
                   else modified_secant_loop f delta tol max_iter n (i + 1) x_new (Some err) logs))))"

definition modified_secant ::
  "numfun \<Rightarrow> real \<Rightarrow> real \<Rightarrow> real \<Rightarrow> int \<Rightarrow> modsec_row outcome" where
  "modified_secant f x0 delta tol max_iter =
     modified_secant_loop f delta tol max_iter (nat max_iter) 1 x0 None []"

subsection \<open>The Newton-Raphson branch of the web handler \<^verbatim>\<open>index\<close>\<close>

text \<open>
  The central-difference derivative \<^verbatim>\<open>df_func\<close> of the \<^verbatim>\<open>auto\<close> case, with
  \<^verbatim>\<open>h = 1e-6\<close>. \<^verbatim>\<open>f(x+h)\<close> is evaluated before \<^verbatim>\<open>f(x-h)\<close>.
\<close>

definition df_approx :: "numfun \<Rightarrow> numfun" where
  "df_approx f x =
     (let h = 1 / 10 ^ 6 in
      case f (x + h) of
        Inl e \<Rightarrow> Inl e
      | Inr u \<Rightarrow> (case f (x - h) of
                   Inl e \<Rightarrow> Inl e
                 | Inr v \<Rightarrow> Inr ((u - v) / (2 * h))))"

text \<open>
  The dictionary \<^verbatim>\<open>{'root': ..., 'error': ..., 'logs': ...}\<close> handed to the template.
  Its \<^verbatim>\<open>'error'\<close> entry is a float or \<^verbatim>\<open>None\<close>.
\<close>

record web_result =
  res_root :: real
  res_error :: "real option"
  res_logs :: "newton_row list"

text \<open>
  The inline loop of the \<^verbatim>\<open>newton\<close> branch. It yields the pair \<open>(root, x)\<close> of the
  variables \<^verbatim>\<open>root\<close> and \<^verbatim>\<open>x\<close> as they stand after the loop, and the log: on
  \<^verbatim>\<open>break\<close>, \<^verbatim>\<open>root = x_new\<close> and \<^verbatim>\<open>x\<close> is not advanced; in the \<^verbatim>\<open>else\<close> of the
  \<^verbatim>\<open>for\<close>, \<^verbatim>\<open>root = x\<close>.
\<close>

fun index_newton_loop ::
  "numfun \<Rightarrow> numfun \<Rightarrow> real \<Rightarrow> nat \<Rightarrow> int \<Rightarrow> real \<Rightarrow> newton_row list \<Rightarrow>
   error + (real \<times> real \<times> newton_row list)" where
  "index_newton_loop f df_func tol 0 i x logs = Inr (x, x, logs)"
| "index_newton_loop f df_func tol (Suc n) i x logs =
     (case f x of
        Inl e \<Rightarrow> Inl (EvaluationError e)
      | Inr fx \<Rightarrow>
          (case df_func x of
             Inl e \<Rightarrow> Inl (EvaluationError e)
           | Inr dfx \<Rightarrow>
               if dfx = 0 then Inl ZeroDerivativeError
               else
                 (let x_new = x - fx / dfx;
                      err = \<bar>x_new - x\<bar>;
                      logs = logs @ [NewtonRow i x x_new fx dfx err] in
                  if err < tol then Inr (x_new, x, logs)
                  else index_newton_loop f df_func tol n (i + 1) x_new logs)))"

text \<open>
  The expression \<^verbatim>\<open>abs(result['root'] - x) if result else None\<close>, for the value
  \<open>result\<close> of the variable \<^verbatim>\<open>result\<close> when the dictionary is built.
\<close>

definition error_entry :: "web_result option \<Rightarrow> real \<Rightarrow> real option" where
  "error_entry result x =
     (case result of
        Some r \<Rightarrow> Some \<bar>res_root r - x\<bar>
      | None \<Rightarrow> None)"

text \<open>
  \<^verbatim>\<open>index\<close> for \<^verbatim>\<open>method == 'newton'\<close>: \<open>df\<close> is the compiled \<^verbatim>\<open>df_expr\<close>, or
  \<open>None\<close> when the field is empty or \<^verbatim>\<open>auto\<close>. \<^verbatim>\<open>result\<close> is \<^verbatim>\<open>None\<close> from the first
  line of \<^verbatim>\<open>index\<close> until the dictionary is assigned to it. An exception is caught by
  \<^verbatim>\<open>index\<close> and shown as the page's error: \<open>Inl\<close>.
\<close>

definition index_newton ::
  "numfun \<Rightarrow> numfun option \<Rightarrow> real \<Rightarrow> real \<Rightarrow> int \<Rightarrow> error + web_result" where
  "index_newton f df x0 tol max_iter =
     (let result = None;
          df_func = (case df of Some d \<Rightarrow> d | None \<Rightarrow> df_approx f) in
      case index_newton_loop f df_func tol (nat max_iter) 1 x0 [] of
        Inl e \<Rightarrow> Inl e
      | Inr (root_x, x, logs) \<Rightarrow>
          Inr \<lparr>res_root = root_x, res_error = error_entry result x, res_logs = logs\<rparr>)"

section \<open>Notions used by the properties\<close>

text \<open>The list \<^verbatim>\<open>logs\<close> of an outcome, whether the solver returned or raised.\<close>

definition outcome_logs :: "'row outcome \<Rightarrow> 'row list" where
  "outcome_logs out = (case out of Inl (e, logs) \<Rightarrow> logs | Inr (r, e, k, logs) \<Rightarrow> logs)"

text \<open>
  An outcome respects the iteration cap \<open>max_iter\<close>: a returned iteration count lies in
  \<open>[1, max_iter]\<close> and is the length of the log; a raise happens with fewer than
  \<open>max_iter\<close> completed iterations.
\<close>

definition within_cap :: "int \<Rightarrow> 'row outcome \<Rightarrow> bool" where
  "within_cap max_iter out =
     (case out of
        Inr (r, e, k, logs) \<Rightarrow> 1 \<le> k \<and> k \<le> max_iter \<and> int (length logs) = k
      | Inl (e, logs) \<Rightarrow> int (length logs) < max_iter)"





text \<open>
  The loop state \<^verbatim>\<open>(i, a, b, fa, fb)\<close> with which a bracketing iteration starts, read
  off its row, and the state that a row which does not converge hands to the next
  iteration: \<^verbatim>\<open>b, fb = c, fc\<close> if \<^verbatim>\<open>fa * fc < 0\<close>, else \<^verbatim>\<open>a, fa = c, fc\<close>.
\<close>

definition row_state :: "bracket_row \<Rightarrow> int \<times> real \<times> real \<times> real \<times> real" where
  "row_state row = (br_i row, br_a row, br_b row, br_fa row, br_fb row)"

definition bracket_after :: "bracket_row \<Rightarrow> int \<times> real \<times> real \<times> real \<times> real" where
  "bracket_after row =
     (if br_fa row * br_fc row < 0
      then (br_i row + 1, br_a row, br_c row, br_fa row, br_fc row)
      else (br_i row + 1, br_c row, br_b row, br_fc row, br_fb row))"



text \<open>The outcome is the early \<^verbatim>\<open>return c, err, i, logs\<close> of the iteration of \<open>row\<close>.\<close>

definition returns_at :: "bracket_row outcome \<Rightarrow> bracket_row \<Rightarrow> bool" where
  "returns_at out row \<longleftrightarrow>
     out = Inr (br_c row, br_err row, br_i row, outcome_logs out)"


text \<open>The same notions for regula falsi, whose only test is \<^verbatim>\<open>abs(fc) < tol\<close>.\<close>

definition regula_falsi_row :: "numfun \<Rightarrow> bracket_row \<Rightarrow> bool" where
  "regula_falsi_row f row \<longleftrightarrow>
     br_fb row - br_fa row \<noteq> 0 \<and>
     br_c row = (br_a row * br_fb row - br_b row * br_fa row) / (br_fb row - br_fa row) \<and>
     f (br_c row) = Inr (br_fc row) \<and>
     br_err row = \<bar>br_fc row\<bar>"

definition regula_falsi_link :: "real \<Rightarrow> bracket_row \<Rightarrow> bracket_row \<Rightarrow> bool" where
  "regula_falsi_link tol row row' \<longleftrightarrow>
     \<not> \<bar>br_fc row\<bar> < tol \<and> row_state row' = bracket_after row"

definition regula_falsi_falls_out :: "int \<Rightarrow> bracket_row outcome \<Rightarrow> bracket_row \<Rightarrow> bool" where
  "regula_falsi_falls_out max_iter out row \<longleftrightarrow>
     out = Inr (br_c row, \<bar>br_fc row\<bar>, max_iter, outcome_logs out)"

text \<open>
  \<open>newton_steps f df tol k i x\<close>: \<open>k\<close> Newton-Raphson iterations from the iterate
  \<open>x\<close>, numbered from \<open>i\<close>, none of which raises or converges; their records, in
  order, and the iterate they reach. \<open>None\<close> when one of the \<open>k\<close> iterations raises or
  converges.
\<close>

fun newton_steps ::
  "numfun \<Rightarrow> numfun \<Rightarrow> real \<Rightarrow> nat \<Rightarrow> int \<Rightarrow> real \<Rightarrow> (newton_row list \<times> real) option" where
  "newton_steps f df tol 0 i x = Some ([], x)"
| "newton_steps f df tol (Suc k) i x =
     (case f x of
        Inl e \<Rightarrow> None
      | Inr fx \<Rightarrow>
          (case df x of
             Inl e \<Rightarrow> None
           | Inr dfx \<Rightarrow>
               if dfx = 0 then None
               else
                 (let x_new = x - fx / dfx; err = \<bar>x_new - x\<bar> in
                  if err < tol then None
                  else
                    (case newton_steps f df tol k (i + 1) x_new of
                       None \<Rightarrow> None
                     | Some (rows, y) \<Rightarrow> Some (NewtonRow i x x_new fx dfx err # rows, y)))))"


section \<open>Properties\<close>

lemma outcome_logs_simps [simp]:
  "outcome_logs (Inl (e, logs)) = logs" "outcome_logs (Inr (r, er, k, logs)) = logs"
  by (simp_all add: outcome_logs_def)


subsection \<open>Rows of a log\<close>

lemma successively_nth:
  "successively P xs \<Longrightarrow> Suc j < length xs \<Longrightarrow> P (xs ! j) (xs ! Suc j)"
proof (induction xs arbitrary: j)
  case Nil
  then show ?case by simp
next
  case (Cons x xs)
  show ?case
  proof (cases j)
    case 0
    with Cons.prems show ?thesis
      by (cases xs) simp_all
  next
    case (Suc k)
    with Cons.prems Cons.IH [of k] show ?thesis
      by (auto simp: successively_Cons)
  qed
qed

lemma row_index:
  assumes "successively P L" and "\<And>r r'. P r r' \<Longrightarrow> row_state r' = bracket_after r"
  shows "j < length L \<Longrightarrow> br_i (L ! j) = br_i (hd L) + int j"
proof (induction j)
  case 0
  then show ?case by (cases L) simp_all
next
  case (Suc j)
  from successively_nth [OF assms(1) Suc.prems]
  have "row_state (L ! Suc j) = bracket_after (L ! j)" by (rule assms(2))
  then have "br_i (L ! Suc j) = br_i (L ! j) + 1"
    by (auto simp: row_state_def bracket_after_def split: if_splits)
  with Suc show ?case by simp
qed

lemma last_row:
  "j < length L \<Longrightarrow> \<not> Suc j < length L \<Longrightarrow> L ! j = last L"
proof -
  assume "j < length L" and "\<not> Suc j < length L"
  then have "j = length L - 1" and "L \<noteq> []" by auto
  then show ?thesis by (simp add: last_conv_nth)
qed

subsection \<open>Compiling an expression\<close>




subsection \<open>The bracket check\<close>




subsection \<open>The iteration cap\<close>

lemma within_cap_Inr [simp]:
  "within_cap m (Inr (r, e, k, logs)) \<longleftrightarrow> 1 \<le> k \<and> k \<le> m \<and> int (length logs) = k"
  by (simp add: within_cap_def)

lemma within_cap_Inl [simp]:
  "within_cap m (Inl (e, logs)) \<longleftrightarrow> int (length logs) < m"
  by (simp add: within_cap_def)

lemma bisection_loop_cap:
  "int (length logs) = i - 1 \<Longrightarrow> i + int n = max_iter + 1 \<Longrightarrow> 1 \<le> max_iter \<Longrightarrow>
   within_cap max_iter (bisection_loop f tol max_iter n i a b fa fb logs)"
  by (induction n arbitrary: i a b fa fb logs) (auto simp: Let_def split: sum.splits)

lemma regula_falsi_loop_cap:
  "int (length logs) = i - 1 \<Longrightarrow> i + int n = max_iter + 1 \<Longrightarrow> 1 \<le> max_iter \<Longrightarrow>
   (fc = None \<longrightarrow> 0 < n) \<Longrightarrow>
   within_cap max_iter (regula_falsi_loop f tol max_iter n i a b fa fb c fc logs)"
  by (induction n arbitrary: i a b fa fb c fc logs)
    (auto simp: Let_def split: sum.splits option.splits)

lemma secant_loop_cap:
  "int (length logs) = i - 1 \<Longrightarrow> i + int n = max_iter + 1 \<Longrightarrow> 1 \<le> max_iter \<Longrightarrow>
   within_cap max_iter (secant_loop f tol max_iter n i x0 x1 logs)"
  by (induction n arbitrary: i x0 x1 logs) (auto simp: Let_def split: sum.splits)

lemma newton_raphson_loop_cap:
  "int (length logs) = i - 1 \<Longrightarrow> i + int n = max_iter + 1 \<Longrightarrow> 1 \<le> max_iter \<Longrightarrow>
   (err = None \<longrightarrow> 0 < n) \<Longrightarrow>
   within_cap max_iter (newton_raphson_loop f df tol max_iter n i x err logs)"
  by (induction n arbitrary: i x err logs)
    (auto simp: Let_def split: sum.splits option.splits)

lemma fixed_point_loop_cap:
  "int (length logs) = i - 1 \<Longrightarrow> i + int n = max_iter + 1 \<Longrightarrow> 1 \<le> max_iter \<Longrightarrow>
   (err = None \<longrightarrow> 0 < n) \<Longrightarrow>
   within_cap max_iter (fixed_point_loop g tol max_iter n i x err logs)"
  by (induction n arbitrary: i x err logs)
    (auto simp: Let_def split: sum.splits option.splits)

lemma modified_secant_loop_cap:
  "int (length logs) = i - 1 \<Longrightarrow> i + int n = max_iter + 1 \<Longrightarrow> 1 \<le> max_iter \<Longrightarrow>
   (err = None \<longrightarrow> 0 < n) \<Longrightarrow>
   within_cap max_iter (modified_secant_loop f delta tol max_iter n i x err logs)"
  by (induction n arbitrary: i x err logs)
    (auto simp: Let_def split: sum.splits option.splits)

text \<open>
  C5. With \<^verbatim>\<open>max_iter >= 1\<close>, each of the six methods yields an outcome within the cap:
  when it returns, \<^verbatim>\<open>1 <= iterations_used <= max_iter\<close> and the log has
  \<^verbatim>\<open>iterations_used\<close> rows; when it raises, fewer than \<^verbatim>\<open>max_iter\<close> iterations were
  completed. Every loop is a recursion on the number of iterations left, so each call
  ends after at most \<^verbatim>\<open>max_iter\<close> loop steps.
\<close>

theorem iterations_within_cap:
  assumes "1 \<le> max_iter"
  shows "within_cap max_iter (bisection f a b tol max_iter) \<and>
         within_cap max_iter (regula_falsi f a b tol max_iter) \<and>
         within_cap max_iter (secant f x0 x1 tol max_iter) \<and>
         within_cap max_iter (newton_raphson f df x0 tol max_iter) \<and>
         within_cap max_iter (fixed_point g x0 tol max_iter) \<and>
         within_cap max_iter (modified_secant f x0 delta tol max_iter)"
proof -
  have b: "within_cap max_iter (bisection f a b tol max_iter)"
    using assms by (auto simp: bisection_def intro!: bisection_loop_cap split: sum.splits)
  have r: "within_cap max_iter (regula_falsi f a b tol max_iter)"
    using assms by (auto simp: regula_falsi_def intro!: regula_falsi_loop_cap split: sum.splits)
  have s: "within_cap max_iter (secant f x0 x1 tol max_iter)"
    using assms by (auto simp: secant_def intro!: secant_loop_cap)
  have n: "within_cap max_iter (newton_raphson f df x0 tol max_iter)"
    using assms by (auto simp: newton_raphson_def intro!: newton_raphson_loop_cap)
  have p: "within_cap max_iter (fixed_point g x0 tol max_iter)"
    using assms by (auto simp: fixed_point_def intro!: fixed_point_loop_cap)
  have m: "within_cap max_iter (modified_secant f x0 delta tol max_iter)"
    using assms by (auto simp: modified_secant_def intro!: modified_secant_loop_cap)
  from b r s n p m show ?thesis by simp
qed

theorem iterations_within_cap_witness:
  "(1::int) \<le> 3 \<and>
   within_cap 3 (bisection (\<lambda>x. Inr (x * x - 2)) 1 2 (1 / 1000) 3) \<and>
   within_cap 3 (regula_falsi (\<lambda>x. Inr (x * x - 2)) 1 2 (1 / 1000) 3) \<and>
   within_cap 3 (secant (\<lambda>x. Inr (x * x - 2)) 1 2 (1 / 1000) 3) \<and>
   within_cap 3 (newton_raphson (\<lambda>x. Inr (x * x - 2)) (\<lambda>x. Inr (2 * x)) 1 (1 / 1000) 3) \<and>
   within_cap 3 (fixed_point (\<lambda>x. Inr ((x + 2 / x) / 2)) 1 (1 / 1000) 3) \<and>
   within_cap 3 (modified_secant (\<lambda>x. Inr (x * x - 2)) 1 (1 / 1000) (1 / 1000) 3)"
proof -
  have cap: "(1::int) \<le> 3" by simp
  from iterations_within_cap [OF cap, of "\<lambda>x. Inr (x * x - 2)" 1 2 "1 / 1000" 1 2
      "\<lambda>x. Inr (2 * x)" "\<lambda>x. Inr ((x + 2 / x) / 2)" "1 / 1000"]
  show ?thesis by simp
qed

subsection \<open>The iterations of bisection\<close>

text \<open>One pass through the body of the loop, when \<^verbatim>\<open>f(c)\<close> evaluates to \<open>fc\<close>.\<close>

lemma bisection_step:
  assumes "f ((a + b) / 2) = Inr fc"
  shows "bisection_loop f tol max_iter (Suc n) i a b fa fb logs =
     (let c = (a + b) / 2; err = \<bar>b - a\<bar> / 2;
          logs' = logs @ [BracketRow i a b c fa fb fc err] in
      if \<bar>fc\<bar> < tol \<or> err < tol then Inr (c, err, i, logs')
      else if fa * fc < 0 then bisection_loop f tol max_iter n (i + 1) a c fa fc logs'
      else bisection_loop f tol max_iter n (i + 1) c b fc fb logs')"
  using assms by (simp add: Let_def)







subsection \<open>Bisection at the iteration cap\<close>







subsection \<open>Halving of the bisection bracket\<close>




subsection \<open>The iterations of regula falsi\<close>

text \<open>
  One pass through the body of the loop, when \<^verbatim>\<open>fb - fa\<close> is not zero and \<^verbatim>\<open>f(c)\<close>
  evaluates to \<open>fc\<close>.
\<close>

lemma regula_falsi_step:
  assumes "fb - fa \<noteq> 0" and "f ((a * fb - b * fa) / (fb - fa)) = Inr fc"
  shows "regula_falsi_loop f tol max_iter (Suc n) i a b fa fb c0 fc0 logs =
     (let c = (a * fb - b * fa) / (fb - fa);
          logs' = logs @ [BracketRow i a b c fa fb fc \<bar>fc\<bar>] in
      if \<bar>fc\<bar> < tol then Inr (c, \<bar>fc\<bar>, i, logs')
      else if fa * fc < 0
        then regula_falsi_loop f tol max_iter n (i + 1) a c fa fc c (Some fc) logs'
        else regula_falsi_loop f tol max_iter n (i + 1) c b fc fb c (Some fc) logs')"
  using assms by (simp add: Let_def)

lemma regula_falsi_loop_trace:
  "list_all (regula_falsi_row f) logs \<Longrightarrow> successively (regula_falsi_link tol) logs \<Longrightarrow>
   (logs \<noteq> [] \<longrightarrow> \<not> \<bar>br_fc (last logs)\<bar> < tol \<and>
      (i, a, b, fa, fb) = bracket_after (last logs) \<and>
      c0 = br_c (last logs) \<and> fc0 = Some (br_fc (last logs))) \<Longrightarrow>
   out = regula_falsi_loop f tol max_iter n i a b fa fb c0 fc0 logs \<Longrightarrow>
   list_all (regula_falsi_row f) (outcome_logs out) \<and>
   successively (regula_falsi_link tol) (outcome_logs out) \<and>
   (outcome_logs out \<noteq> [] \<and> \<bar>br_fc (last (outcome_logs out))\<bar> < tol \<longrightarrow>
      returns_at out (last (outcome_logs out))) \<and>
   (outcome_logs out \<noteq> [] \<and> \<not> \<bar>br_fc (last (outcome_logs out))\<bar> < tol \<and> \<not> isl out \<longrightarrow>
      regula_falsi_falls_out max_iter out (last (outcome_logs out))) \<and>
   (logs = [] \<and> outcome_logs out \<noteq> [] \<longrightarrow> row_state (hd (outcome_logs out)) = (i, a, b, fa, fb)) \<and>
   (logs \<noteq> [] \<longrightarrow> outcome_logs out \<noteq> [] \<and> hd (outcome_logs out) = hd logs)"
proof (induction n arbitrary: i a b fa fb c0 fc0 logs out)
  case 0
  show ?case
  proof (cases "logs = []")
    case True
    with 0 show ?thesis by (auto split: option.splits)
  next
    case False
    with "0.prems"(3,4) have "out = Inr (br_c (last logs), \<bar>br_fc (last logs)\<bar>, max_iter, logs)"
      by simp
    with 0 False show ?thesis
      by (auto simp: returns_at_def regula_falsi_falls_out_def)
  qed
next
  case (Suc n)
  show ?case
  proof (cases "fb - fa = 0")
    case True
    with Suc.prems show ?thesis by (auto simp: returns_at_def)
  next
    case nz: False
    let ?c = "(a * fb - b * fa) / (fb - fa)"
    show ?thesis
    proof (cases "f ?c")
      case (Inl e)
      with nz Suc.prems show ?thesis by (auto simp: returns_at_def)
    next
      case (Inr fc)
      let ?row = "BracketRow i a b ?c fa fb fc \<bar>fc\<bar>"
      let ?logs = "logs @ [?row]"
      from Inr nz have row: "regula_falsi_row f ?row"
        by (simp add: regula_falsi_row_def)
      with Suc.prems(1) have all: "list_all (regula_falsi_row f) ?logs"
        by simp
      have link: "successively (regula_falsi_link tol) ?logs"
        using Suc.prems(2,3)
        by (auto simp: successively_append_iff regula_falsi_link_def row_state_def)
      have hd_logs: "hd ?logs = (if logs = [] then ?row else hd logs)"
        by (cases logs) simp_all
      show ?thesis
      proof (cases "\<bar>fc\<bar> < tol")
        case True
        with Inr nz Suc.prems(4) have out: "out = Inr (?c, \<bar>fc\<bar>, i, ?logs)"
          by (simp add: Let_def)
        with True all link hd_logs show ?thesis
          by (auto simp: returns_at_def row_state_def)
      next
        case False
        show ?thesis
        proof (cases "fa * fc < 0")
          case True
          with Inr nz False Suc.prems(4)
          have out: "out = regula_falsi_loop f tol max_iter n (i + 1) a ?c fa fc ?c (Some fc) ?logs"
            by (simp add: Let_def)
          from False True have inv: "?logs \<noteq> [] \<longrightarrow> \<not> \<bar>br_fc (last ?logs)\<bar> < tol \<and>
              (i + 1, a, ?c, fa, fc) = bracket_after (last ?logs) \<and>
              ?c = br_c (last ?logs) \<and> Some fc = Some (br_fc (last ?logs))"
            by (simp add: bracket_after_def)
          from Suc.IH [OF all link inv out] hd_logs show ?thesis
            by (auto simp: row_state_def)
        next
          case nlt: False
          with Inr nz False Suc.prems(4)
          have out: "out = regula_falsi_loop f tol max_iter n (i + 1) ?c b fc fb ?c (Some fc) ?logs"
            by (simp add: Let_def)
          from False nlt have inv: "?logs \<noteq> [] \<longrightarrow> \<not> \<bar>br_fc (last ?logs)\<bar> < tol \<and>
              (i + 1, ?c, b, fc, fb) = bracket_after (last ?logs) \<and>
              ?c = br_c (last ?logs) \<and> Some fc = Some (br_fc (last ?logs))"
            by (simp add: bracket_after_def)
          from Suc.IH [OF all link inv out] hd_logs show ?thesis
            by (auto simp: row_state_def)
        qed
      qed
    qed
  qed
qed

lemma regula_falsi_trace:
  assumes "out = regula_falsi f a b tol max_iter" and "L = outcome_logs out"
  shows "list_all (regula_falsi_row f) L \<and> successively (regula_falsi_link tol) L \<and>
     (L \<noteq> [] \<and> \<bar>br_fc (last L)\<bar> < tol \<longrightarrow> returns_at out (last L)) \<and>
     (L \<noteq> [] \<and> \<not> \<bar>br_fc (last L)\<bar> < tol \<and> \<not> isl out \<longrightarrow>
        regula_falsi_falls_out max_iter out (last L)) \<and>
     (L \<noteq> [] \<longrightarrow> br_i (hd L) = 1 \<and> br_a (hd L) = a \<and> br_b (hd L) = b \<and>
        f a = Inr (br_fa (hd L)) \<and> f b = Inr (br_fb (hd L)))"
proof (cases "\<exists>fa fb. f a = Inr fa \<and> f b = Inr fb \<and> \<not> 0 < fa * fb")
  case True
  then obtain fa fb where fa: "f a = Inr fa" and fb: "f b = Inr fb" and s: "\<not> 0 < fa * fb"
    by blast
  then have out: "out = regula_falsi_loop f tol max_iter (nat max_iter) 1 a b fa fb a None []"
    using assms(1) by (simp add: regula_falsi_def)
  from regula_falsi_loop_trace [OF _ _ _ out] fa fb assms(2) show ?thesis
    by (simp add: row_state_def)
next
  case False
  with assms have "L = []"
    by (auto simp: regula_falsi_def split: sum.splits)
  then show ?thesis by simp
qed

text \<open>
  C9. Row \<open>j\<close> of the log of any \<^verbatim>\<open>regula_falsi\<close> call is iteration \<open>j + 1\<close>: its point
  is \<^verbatim>\<open>c = (a * fb - b * fa) / (fb - fa)\<close>, with \<^verbatim>\<open>fb - fa\<close> not zero, its \<^verbatim>\<open>fc\<close> is
  \<^verbatim>\<open>f(c)\<close> and its error is \<^verbatim>\<open>|fc|\<close>. The call returns at that row exactly when
  \<^verbatim>\<open>|fc| < tol\<close>. A row with \<^verbatim>\<open>|fc| >= tol\<close> never ends the call early, whatever the
  width of its bracket: either another row follows, from the state the row left, or the
  row is number \<^verbatim>\<open>max_iter\<close> and a call that returns gives \<^verbatim>\<open>iterations_used = max_iter\<close>.
\<close>

theorem regula_falsi_rows:
  assumes "j < length (outcome_logs (regula_falsi f a b tol max_iter))"
  shows "let out = regula_falsi f a b tol max_iter; L = outcome_logs out; row = L ! j in
     br_i row = int j + 1 \<and>
     br_fb row - br_fa row \<noteq> 0 \<and>
     br_c row = (br_a row * br_fb row - br_b row * br_fa row) / (br_fb row - br_fa row) \<and>
     f (br_c row) = Inr (br_fc row) \<and>
     br_err row = \<bar>br_fc row\<bar> \<and>
     (j = 0 \<longrightarrow> br_a row = a \<and> br_b row = b \<and> f a = Inr (br_fa row) \<and> f b = Inr (br_fb row)) \<and>
     (\<bar>br_fc row\<bar> < tol \<longrightarrow>
        Suc j = length L \<and> out = Inr (br_c row, \<bar>br_fc row\<bar>, br_i row, L)) \<and>
     (\<not> \<bar>br_fc row\<bar> < tol \<and> Suc j < length L \<longrightarrow>
        row_state (L ! Suc j) = bracket_after row) \<and>
     (\<not> \<bar>br_fc row\<bar> < tol \<and> Suc j = length L \<and> \<not> isl out \<longrightarrow>
        out = Inr (br_c row, \<bar>br_fc row\<bar>, max_iter, L) \<and> int (length L) = max_iter)"
proof -
  define out where "out = regula_falsi f a b tol max_iter"
  define L where "L = outcome_logs out"
  define row where "row = L ! j"
  from assms have j: "j < length L" and ne: "L \<noteq> []"
    by (auto simp: L_def out_def)
  note t = regula_falsi_trace [OF out_def L_def]
  from t j have r: "regula_falsi_row f row"
    by (simp add: list_all_length row_def)
  from t have s: "successively (regula_falsi_link tol) L" by blast
  have "br_i row = br_i (hd L) + int j"
    unfolding row_def using s _ j by (rule row_index) (simp add: regula_falsi_link_def)
  with t ne have i: "br_i row = int j + 1"
    by simp
  have first: "j = 0 \<longrightarrow> br_a row = a \<and> br_b row = b \<and> f a = Inr (br_fa row) \<and>
      f b = Inr (br_fb row)"
    using t ne by (auto simp: row_def hd_conv_nth)
  have nxt: "Suc j < length L \<longrightarrow>
      \<not> \<bar>br_fc row\<bar> < tol \<and> row_state (L ! Suc j) = bracket_after row"
    using successively_nth [OF s, of j] by (auto simp: regula_falsi_link_def row_def)
  have lst: "\<not> Suc j < length L \<longrightarrow> row = last L"
    using last_row [OF j] by (simp add: row_def)
  have conv: "\<bar>br_fc row\<bar> < tol \<longrightarrow>
      Suc j = length L \<and> out = Inr (br_c row, \<bar>br_fc row\<bar>, br_i row, L)"
  proof
    assume c: "\<bar>br_fc row\<bar> < tol"
    with nxt j have last: "Suc j = length L" by (cases "Suc j < length L") auto
    with lst c t ne have "returns_at out row" by simp
    with last r show "Suc j = length L \<and> out = Inr (br_c row, \<bar>br_fc row\<bar>, br_i row, L)"
      by (simp add: returns_at_def L_def regula_falsi_row_def)
  qed
  have cap: "1 \<le> max_iter"
  proof (rule ccontr)
    assume "\<not> 1 \<le> max_iter"
    then have "nat max_iter = 0" by simp
    then have "L = []"
      by (auto simp: L_def out_def regula_falsi_def split: sum.splits)
    with ne show False by simp
  qed
  have fall: "\<not> \<bar>br_fc row\<bar> < tol \<and> Suc j = length L \<and> \<not> isl out \<longrightarrow>
      out = Inr (br_c row, \<bar>br_fc row\<bar>, max_iter, L) \<and> int (length L) = max_iter"
  proof
    assume h: "\<not> \<bar>br_fc row\<bar> < tol \<and> Suc j = length L \<and> \<not> isl out"
    with lst t ne have "regula_falsi_falls_out max_iter out row" by auto
    then have o: "out = Inr (br_c row, \<bar>br_fc row\<bar>, max_iter, L)"
      by (simp add: regula_falsi_falls_out_def L_def)
    have "within_cap max_iter out"
      unfolding out_def using cap
      by (auto simp: regula_falsi_def intro!: regula_falsi_loop_cap split: sum.splits)
    with o have "int (length L) = max_iter" by simp
    with o show "out = Inr (br_c row, \<bar>br_fc row\<bar>, max_iter, L) \<and> int (length L) = max_iter"
      by simp
  qed
  from r have r': "br_fb row - br_fa row \<noteq> 0"
    "br_c row = (br_a row * br_fb row - br_b row * br_fa row) / (br_fb row - br_fa row)"
    "f (br_c row) = Inr (br_fc row)" "br_err row = \<bar>br_fc row\<bar>"
    unfolding regula_falsi_row_def by blast+
  from r' i first nxt conv fall show ?thesis
    unfolding Let_def out_def [symmetric] L_def [symmetric] row_def [symmetric]
    by blast
qed

text \<open>
  An instance: \<^verbatim>\<open>f(x) = 1000 * (x*x - 2)\<close> on \<^verbatim>\<open>[1.4, 1.5]\<close> with \<^verbatim>\<open>tol = 1\<close>. In the
  first row the half-width \<^verbatim>\<open>0.05\<close> of the bracket is below \<^verbatim>\<open>tol\<close>, \<^verbatim>\<open>|fc| = 1000/841\<close>
  is not, and a second row follows.
\<close>

theorem regula_falsi_rows_witness:
  "0 < length (outcome_logs (regula_falsi (\<lambda>x. Inr (1000 * (x * x - 2))) (7 / 5) (3 / 2) 1 5)) \<and>
   outcome_logs (regula_falsi (\<lambda>x. Inr (1000 * (x * x - 2))) (7 / 5) (3 / 2) 1 5) ! 0 =
     BracketRow 1 (7 / 5) (3 / 2) (41 / 29) (- 40) 250 (- (1000 / 841)) (1000 / 841) \<and>
   \<bar>3 / 2 - 7 / 5 :: real\<bar> / 2 < 1 \<and>
   \<not> \<bar>- (1000 / 841) :: real\<bar> < 1 \<and>
   Suc 0 < length (outcome_logs (regula_falsi (\<lambda>x. Inr (1000 * (x * x - 2))) (7 / 5) (3 / 2) 1 5)) \<and>
   row_state (outcome_logs (regula_falsi (\<lambda>x. Inr (1000 * (x * x - 2))) (7 / 5) (3 / 2) 1 5) ! Suc 0) =
     (2, 41 / 29, 3 / 2, - (1000 / 841), 250)"
proof -
  have run: "regula_falsi (\<lambda>x. Inr (1000 * (x * x - 2))) (7 / 5) (3 / 2) 1 5 =
     Inr (239 / 169, 1000 / 28561, 2,
       [BracketRow 1 (7 / 5) (3 / 2) (41 / 29) (- 40) 250 (- (1000 / 841)) (1000 / 841),
        BracketRow 2 (41 / 29) (3 / 2) (239 / 169) (- (1000 / 841)) 250 (- (1000 / 28561))
          (1000 / 28561)])"
    by (simp add: regula_falsi_def Let_def eval_nat_numeral)
  then have len:
    "0 < length (outcome_logs (regula_falsi (\<lambda>x. Inr (1000 * (x * x - 2))) (7 / 5) (3 / 2) 1 5))"
    by simp
  from regula_falsi_rows [OF len] run show ?thesis
    by (simp add: Let_def row_state_def)
qed

subsection \<open>Newton-Raphson and a zero derivative\<close>

lemma newton_loop_zero_derivative_D:
  "newton_raphson_loop f df tol max_iter n i x err logs0 = Inl (ZeroDerivativeError, logs) \<Longrightarrow>
   \<exists>rows y fx. logs = logs0 @ rows \<and> length rows < n \<and>
     newton_steps f df tol (length rows) i x = Some (rows, y) \<and> f y = Inr fx \<and> df y = Inr 0"
proof (induction n arbitrary: i x err logs0)
  case 0
  then show ?case by (simp split: option.splits)
next
  case (Suc n)
  from Suc.prems obtain fx where fx: "f x = Inr fx"
    by (cases "f x") simp_all
  from Suc.prems fx obtain dfx where dfx: "df x = Inr dfx"
    by (cases "df x") simp_all
  show ?case
  proof (cases "dfx = 0")
    case True
    with fx dfx Suc.prems have "logs = logs0" by simp
    with fx dfx True have "logs = logs0 @ [] \<and> length ([] :: newton_row list) < Suc n \<and>
        newton_steps f df tol (length ([] :: newton_row list)) i x = Some ([], x) \<and>
        f x = Inr fx \<and> df x = Inr 0"
      by simp
    then show ?thesis by blast
  next
    case False
    let ?x_new = "x - fx / dfx"
    let ?err = "\<bar>?x_new - x\<bar>"
    let ?row = "NewtonRow i x ?x_new fx dfx ?err"
    have nc: "\<not> ?err < tol"
    proof
      assume "?err < tol"
      with fx dfx False have "newton_raphson_loop f df tol max_iter (Suc n) i x err logs0 =
          Inr (?x_new, ?err, i, logs0 @ [?row])"
        by (simp add: Let_def)
      with Suc.prems show False by simp
    qed
    with fx dfx False have "newton_raphson_loop f df tol max_iter (Suc n) i x err logs0 =
        newton_raphson_loop f df tol max_iter n (i + 1) ?x_new (Some ?err) (logs0 @ [?row])"
      by (simp add: Let_def)
    with Suc.prems have "newton_raphson_loop f df tol max_iter n (i + 1) ?x_new (Some ?err)
        (logs0 @ [?row]) = Inl (ZeroDerivativeError, logs)"
      by simp
    from Suc.IH [OF this] obtain rows y fy where
      r: "logs = (logs0 @ [?row]) @ rows" "length rows < n"
         "newton_steps f df tol (length rows) (i + 1) ?x_new = Some (rows, y)"
         "f y = Inr fy" "df y = Inr 0"
      by blast
    from r(3) fx dfx False nc
    have "newton_steps f df tol (length (?row # rows)) i x = Some (?row # rows, y)"
      by (simp add: Let_def)
    with r(1,2,4,5) have "logs = logs0 @ (?row # rows) \<and> length (?row # rows) < Suc n \<and>
        newton_steps f df tol (length (?row # rows)) i x = Some (?row # rows, y) \<and>
        f y = Inr fy \<and> df y = Inr 0"
      by simp
    then show ?thesis by blast
  qed
qed

lemma newton_loop_zero_derivative_I:
  "newton_steps f df tol (length rows) i x = Some (rows, y) \<Longrightarrow> f y = Inr fy \<Longrightarrow>
   df y = Inr 0 \<Longrightarrow> length rows < n \<Longrightarrow>
   newton_raphson_loop f df tol max_iter n i x err logs0 =
     Inl (ZeroDerivativeError, logs0 @ rows)"
proof (induction rows arbitrary: n i x err logs0)
  case Nil
  then obtain m where "n = Suc m" by (cases n) auto
  with Nil show ?case by simp
next
  case (Cons row rows)
  then obtain m where n: "n = Suc m" and m: "length rows < m" by (cases n) auto
  from Cons.prems(1) obtain fx where fx: "f x = Inr fx"
    by (cases "f x") simp_all
  from Cons.prems(1) fx obtain dfx where dfx: "df x = Inr dfx"
    by (cases "df x") simp_all
  from Cons.prems(1) fx dfx have nz: "dfx \<noteq> 0"
    by (auto split: if_splits)
  let ?x_new = "x - fx / dfx"
  let ?err = "\<bar>?x_new - x\<bar>"
  from Cons.prems(1) fx dfx nz have nc: "\<not> ?err < tol"
    by (auto simp: Let_def split: if_splits)
  from Cons.prems(1) fx dfx nz nc
  have row: "row = NewtonRow i x ?x_new fx dfx ?err"
    and rest: "newton_steps f df tol (length rows) (i + 1) ?x_new = Some (rows, y)"
    by (auto simp: Let_def split: option.splits)
  from Cons.IH [OF rest Cons.prems(2,3) m]
  have "newton_raphson_loop f df tol max_iter m (i + 1) ?x_new (Some ?err) (logs0 @ [row]) =
      Inl (ZeroDerivativeError, (logs0 @ [row]) @ rows)" .
  with fx dfx nz nc row n show ?case
    by (simp add: Let_def)
qed

lemma newton_zero_derivative_cli:
  "newton_raphson f df x0 tol max_iter = Inl (ZeroDerivativeError, logs) \<longleftrightarrow>
     int (length logs) < max_iter \<and>
     (\<exists>x fx. newton_steps f df tol (length logs) 1 x0 = Some (logs, x) \<and>
        f x = Inr fx \<and> df x = Inr 0)"
proof
  assume "newton_raphson f df x0 tol max_iter = Inl (ZeroDerivativeError, logs)"
  then have "newton_raphson_loop f df tol max_iter (nat max_iter) 1 x0 None [] =
      Inl (ZeroDerivativeError, logs)"
    by (simp add: newton_raphson_def)
  from newton_loop_zero_derivative_D [OF this] show
    "int (length logs) < max_iter \<and>
     (\<exists>x fx. newton_steps f df tol (length logs) 1 x0 = Some (logs, x) \<and>
        f x = Inr fx \<and> df x = Inr 0)"
    by auto
next
  assume r: "int (length logs) < max_iter \<and>
     (\<exists>x fx. newton_steps f df tol (length logs) 1 x0 = Some (logs, x) \<and>
        f x = Inr fx \<and> df x = Inr 0)"
  then obtain x fx where s: "newton_steps f df tol (length logs) 1 x0 = Some (logs, x)"
    and fx: "f x = Inr fx" and dfx: "df x = Inr 0"
    by blast
  from r have "int (length logs) < max_iter" by blast
  then have "length logs < nat max_iter" by linarith
  from newton_loop_zero_derivative_I [OF s fx dfx this, of max_iter None "[]"]
  show "newton_raphson f df x0 tol max_iter = Inl (ZeroDerivativeError, logs)"
    by (simp add: newton_raphson_def)
qed

text \<open>
  The inline loop of \<^verbatim>\<open>index\<close> raises its zero-derivative error exactly when
  \<^verbatim>\<open>newton_raphson\<close> does on the same input.
\<close>

lemma index_newton_loop_zero_derivative:
  "index_newton_loop f df tol n i x logs0 = Inl ZeroDerivativeError \<longleftrightarrow>
   (\<exists>logs. newton_raphson_loop f df tol max_iter n i x err logs0 =
      Inl (ZeroDerivativeError, logs))"
  by (induction n arbitrary: i x err logs0)
    (auto simp: Let_def split: sum.splits option.splits)

lemma index_newton_zero_derivative:
  "index_newton f dfo x0 tol max_iter = Inl ZeroDerivativeError \<longleftrightarrow>
   (\<exists>logs. newton_raphson f (case dfo of Some d \<Rightarrow> d | None \<Rightarrow> df_approx f) x0 tol max_iter =
      Inl (ZeroDerivativeError, logs))"
proof -
  have "index_newton f dfo x0 tol max_iter = Inl ZeroDerivativeError \<longleftrightarrow>
      index_newton_loop f (case dfo of Some d \<Rightarrow> d | None \<Rightarrow> df_approx f) tol
        (nat max_iter) 1 x0 [] = Inl ZeroDerivativeError"
    by (auto simp: index_newton_def Let_def split: sum.splits)
  then show ?thesis
    by (simp add: newton_raphson_def
        index_newton_loop_zero_derivative [where max_iter = max_iter and err = None])
qed

text \<open>
  C6. \<^verbatim>\<open>newton_raphson\<close> raises its zero-derivative error with the log \<open>logs\<close> exactly
  when \<open>logs\<close> holds fewer than \<^verbatim>\<open>max_iter\<close> rows, these rows are the records of that
  many iterations from \<^verbatim>\<open>x0\<close>, none of which raised or converged, and at the iterate
  \<open>x\<close> they reach \<^verbatim>\<open>f(x)\<close> evaluates and \<^verbatim>\<open>df(x) == 0\<close>: the check comes before the
  step, and the failing iteration itself is not in the log. The Newton-Raphson branch
  of \<^verbatim>\<open>index\<close> raises the error on the same inputs.
\<close>

theorem newton_zero_derivative_iff:
  "(newton_raphson f df x0 tol max_iter = Inl (ZeroDerivativeError, logs) \<longleftrightarrow>
     int (length logs) < max_iter \<and>
     (\<exists>x fx. newton_steps f df tol (length logs) 1 x0 = Some (logs, x) \<and>
        f x = Inr fx \<and> df x = Inr 0)) \<and>
   (index_newton f (Some df) x0 tol max_iter = Inl ZeroDerivativeError \<longleftrightarrow>
     (\<exists>rows. newton_raphson f df x0 tol max_iter = Inl (ZeroDerivativeError, rows)))"
  using newton_zero_derivative_cli [of f df x0 tol max_iter logs]
    index_newton_zero_derivative [of f "Some df" x0 tol max_iter]
  by simp

text \<open>
  An instance: \<^verbatim>\<open>f(x) = x*x - 2*x + 2\<close> with \<^verbatim>\<open>df(x) = 2*x - 2\<close> from \<^verbatim>\<open>x0 = 0\<close>. The
  first iteration steps to \<^verbatim>\<open>1\<close>, where the derivative is zero: the second iteration
  raises, and the log holds the first row only.
\<close>

theorem newton_zero_derivative_witness:
  "newton_raphson (\<lambda>x. Inr (x * x - 2 * x + 2)) (\<lambda>x. Inr (2 * x - 2)) 0 (1 / 1000) 5 =
     Inl (ZeroDerivativeError, [NewtonRow 1 0 1 2 (- 2) 1])"
proof -
  have "int (length [NewtonRow 1 0 1 2 (- 2) 1]) < 5 \<and>
     (\<exists>x fx. newton_steps (\<lambda>x. Inr (x * x - 2 * x + 2)) (\<lambda>x. Inr (2 * x - 2)) (1 / 1000)
         (length [NewtonRow 1 0 1 2 (- 2) 1]) 1 0 = Some ([NewtonRow 1 0 1 2 (- 2) 1], x) \<and>
        (\<lambda>x. Inr (x * x - 2 * x + 2) :: call_error + real) x = Inr fx \<and>
        (\<lambda>x. Inr (2 * x - 2) :: call_error + real) x = Inr 0)"
    by (simp add: Let_def)
  with newton_zero_derivative_iff [where f = "\<lambda>x. Inr (x * x - 2 * x + 2)"
      and df = "\<lambda>x. Inr (2 * x - 2)" and ?x0.0 = 0 and tol = "1 / 1000" and max_iter = 5
      and logs = "[NewtonRow 1 0 1 2 (- 2) 1]"]
  show ?thesis
    by blast
qed

subsection \<open>Modified secant from zero\<close>



subsection \<open>The final error of the Newton-Raphson paths\<close>

text \<open>\<^verbatim>\<open>newton_raphson\<close> of \<^verbatim>\<open>ZOF_CLI.py\<close> returns the last \<^verbatim>\<open>err\<close>, an absolute value.\<close>

lemma newton_raphson_loop_nonneg:
  "newton_raphson_loop f df tol max_iter n i x err logs = Inr (r, e, k, logs') \<Longrightarrow>
   (\<forall>v. err = Some v \<longrightarrow> 0 \<le> v) \<Longrightarrow> 0 \<le> e"
  by (induction n arbitrary: i x err logs)
    (auto simp: Let_def split: sum.splits option.splits if_splits)

lemma newton_raphson_final_error_nonneg:
  "newton_raphson f df x0 tol max_iter = Inr (r, e, k, logs) \<Longrightarrow> 0 \<le> e"
  by (auto simp: newton_raphson_def dest: newton_raphson_loop_nonneg)

text \<open>
  The Newton-Raphson branch of \<^verbatim>\<open>index\<close> builds its \<^verbatim>\<open>'error'\<close> entry from the variable
  \<^verbatim>\<open>result\<close>, which is still \<^verbatim>\<open>None\<close>: whenever the branch produces a result, the entry
  is \<^verbatim>\<open>None\<close>, not a number.
\<close>

lemma index_newton_error_None:
  "index_newton f df x0 tol max_iter = Inr res \<Longrightarrow> res_error res = None"
  by (auto simp: index_newton_def error_entry_def Let_def split: sum.splits)

text \<open>
  C3. The claim that every path returns a non-negative real final error fails on the
  Newton-Raphson branch of \<^verbatim>\<open>index\<close>. For \<^verbatim>\<open>f(x) = x*x - 2\<close>, \<^verbatim>\<open>df(x) = 2*x\<close>,
  \<^verbatim>\<open>x0 = 1\<close>, \<^verbatim>\<open>tol = 0.001\<close> and \<^verbatim>\<open>max_iter = 50\<close> the branch converges in four
  iterations, whose last \<^verbatim>\<open>err\<close> is \<^verbatim>\<open>1/470832\<close>, and the \<^verbatim>\<open>'error'\<close> entry of its result
  is \<^verbatim>\<open>None\<close>.
\<close>

theorem index_newton_no_error_estimate:
  "index_newton (\<lambda>x. Inr (x * x - 2)) (Some (\<lambda>x. Inr (2 * x))) 1 (1 / 1000) 50 =
     Inr \<lparr>res_root = 665857 / 470832, res_error = None,
       res_logs =
         [NewtonRow 1 1 (3 / 2) (- 1) 2 (1 / 2),
          NewtonRow 2 (3 / 2) (17 / 12) (1 / 4) 3 (1 / 12),
          NewtonRow 3 (17 / 12) (577 / 408) (1 / 144) (17 / 6) (1 / 408),
          NewtonRow 4 (577 / 408) (665857 / 470832) (1 / 166464) (577 / 204) (1 / 470832)]\<rparr>"
  by (simp add: index_newton_def error_entry_def Let_def eval_nat_numeral)

end
